theory Spec2Isabelle
  imports Complex_Main "HOL-Library.Log_Nat"
begin

section \<open>Python values and operators\<close>

text \<open>
  The values that reach the layer arithmetic of \<^verbatim>\<open>cnncalc/main.py\<close> from a loaded
  YAML/JSON configuration are \<^verbatim>\<open>None\<close>, integers (unbounded) and strings. Floats,
  booleans, lists and nested mappings of a configuration are outside the model. The one
  float of the program itself, the receptive field center, has a type of its own below.
\<close>

datatype pyval = PNone | PInt int | PStr string

datatype py_error =
  TypeError | ZeroDivisionError | OverflowError | KeyError | AttributeError
  | UnboundLocalError | IndexError

type_synonym 'a result = "py_error + 'a"

text \<open>Sequencing of two computations, the first of which may raise.\<close>

fun and_then :: "'a result \<Rightarrow> ('a \<Rightarrow> 'b result) \<Rightarrow> 'b result" where
  "and_then (Inl e) f = Inl e"
| "and_then (Inr v) f = f v"

text \<open>
  The binary operators, by operand types. \<^verbatim>\<open>+\<close> concatenates two strings and
  \<^verbatim>\<open>*\<close> repeats a string an integer number of times; every other combination with a
  string or \<^verbatim>\<open>None\<close> is a \<^verbatim>\<open>TypeError\<close>.
\<close>

fun py_add :: "pyval \<Rightarrow> pyval \<Rightarrow> pyval result" where
  "py_add (PInt a) (PInt b) = Inr (PInt (a + b))"
| "py_add (PStr a) (PStr b) = Inr (PStr (a @ b))"
| "py_add _ _ = Inl TypeError"

fun py_sub :: "pyval \<Rightarrow> pyval \<Rightarrow> pyval result" where
  "py_sub (PInt a) (PInt b) = Inr (PInt (a - b))"
| "py_sub _ _ = Inl TypeError"

fun py_mul :: "pyval \<Rightarrow> pyval \<Rightarrow> pyval result" where
  "py_mul (PInt a) (PInt b) = Inr (PInt (a * b))"
| "py_mul (PStr a) (PInt b) = Inr (PStr (concat (replicate (nat b) a)))"
| "py_mul (PInt a) (PStr b) = Inr (PStr (concat (replicate (nat a) b)))"
| "py_mul _ _ = Inl TypeError"

text \<open>
  \<^verbatim>\<open>//\<close> and \<^verbatim>\<open>%\<close> round towards minus infinity, the remainder taking the sign of the
  divisor, as \<open>div\<close> and \<open>mod\<close> on \<open>int\<close> do; a zero divisor raises.
\<close>

fun py_floordiv :: "pyval \<Rightarrow> pyval \<Rightarrow> pyval result" where
  "py_floordiv (PInt a) (PInt b) =
     (if b = 0 then Inl ZeroDivisionError else Inr (PInt (a div b)))"
| "py_floordiv _ _ = Inl TypeError"

text \<open>
  With a string on the left \<^verbatim>\<open>%\<close> is printf-style formatting, which is not modelled: it is
  given as \<^verbatim>\<open>TypeError\<close>. The program applies \<^verbatim>\<open>%\<close> only as \<^verbatim>\<open>self.kernel % 2\<close> in
  \<^verbatim>\<open>calculate_output_size\<close>, where a string kernel ends in an exception in any case (the
  later \<^verbatim>\<open>... - self.kernel\<close> raises \<^verbatim>\<open>TypeError\<close>); only the class of the exception can
  differ (\<^verbatim>\<open>ValueError\<close> for a malformed format).
\<close>

fun py_mod :: "pyval \<Rightarrow> pyval \<Rightarrow> pyval result" where
  "py_mod (PInt a) (PInt b) =
     (if b = 0 then Inl ZeroDivisionError else Inr (PInt (a mod b)))"
| "py_mod _ _ = Inl TypeError"

subsection \<open>Floats\<close>

text \<open>
  A Python float is an IEEE 754 binary64 number. The program has one float literal,
  \<^verbatim>\<open>0.5\<close> in \<^verbatim>\<open>Input.__init__\<close>, and one float operation: the last \<^verbatim>\<open>+\<close> of
  \<^verbatim>\<open>calculate_receptive_field_center\<close>, with the predecessor's center on the left and an
  integer on the right. The attribute \<^verbatim>\<open>receptive_field_center\<close> therefore only ever holds
  \<^verbatim>\<open>None\<close> or a float, and a float is a finite double, given as the rational it denotes
  (the two zeros are not told apart), or an infinity; \<^verbatim>\<open>float + int\<close> yields no NaN.
\<close>

datatype pyfloat = Finite rat | PlusInf | MinusInf

text \<open>
  \<open>\<lfloor>log\<^sub>2 x\<rfloor>\<close> for a positive rational, from the bit length of integers
  (\<^verbatim>\<open>int.bit_length\<close>): for \<open>1 \<le> x\<close> one less than the bit length of \<open>\<lfloor>x\<rfloor>\<close>; for
  \<open>x < 1\<close> minus the least \<open>k\<close> with \<open>1 / x \<le> 2 ^ k\<close>, which is the bit length of
  \<open>\<lceil>1 / x\<rceil> - 1\<close>.
\<close>

definition floor_log2 :: "rat \<Rightarrow> int" where
  "floor_log2 x = (if 1 \<le> x then bitlen \<lfloor>x\<rfloor> - 1 else - bitlen (\<lceil>1 / x\<rceil> - 1))"

text \<open>\<open>x\<close> times \<open>2\<close> to the power \<open>e\<close>, for an integer \<open>e\<close> of either sign.\<close>

definition scale2 :: "rat \<Rightarrow> int \<Rightarrow> rat" where
  "scale2 x e = (if 0 \<le> e then x * 2 ^ nat e else x / 2 ^ nat (- e))"

text \<open>The nearest integer, a tie going to the even one.\<close>

definition round_half_even :: "rat \<Rightarrow> int" where
  "round_half_even x =
     (let n = \<lfloor>x\<rfloor>; r = x - of_int n
      in if r < 1 / 2 then n else if 1 / 2 < r then n + 1 else if even n then n else n + 1)"

text \<open>
  \<open>round_double\<close> is rounding to the nearest double, ties to even. A double is an integer
  \<open>m\<close> of magnitude below \<open>2 ^ 53\<close> times \<open>2\<close> to the power \<open>e\<close>, with
  \<open>- 1074 \<le> e \<le> 971\<close>. The doubles next to \<open>x\<close> have the exponent
  \<open>e = \<lfloor>log\<^sub>2 \<bar>x\<bar>\<rfloor> - 52\<close>, or \<open>- 1074\<close> if that is less (the subnormal doubles); \<open>x\<close>
  divided by \<open>2\<close> to the power \<open>e\<close> is rounded to the integer \<open>m\<close>, of magnitude from
  \<open>2 ^ 52\<close> to \<open>2 ^ 53\<close> unless subnormal. The result \<open>m\<close> times \<open>2\<close> to the power \<open>e\<close> has
  magnitude \<open>2 ^ 1024\<close> or more, and is an infinity, exactly when \<open>971 < e\<close>, or \<open>e = 971\<close>
  and \<open>2 ^ 53 \<le> \<bar>m\<bar>\<close>.
\<close>

definition round_double :: "rat \<Rightarrow> pyfloat" where
  "round_double x =
     (if x = 0 then Finite 0
      else
        let e = max (- 1074) (floor_log2 \<bar>x\<bar> - 52);
            m = round_half_even (scale2 x (- e))
        in if 971 < e \<or> (e = 971 \<and> 2 ^ 53 \<le> \<bar>m\<bar>)
           then (if 0 < x then PlusInf else MinusInf)
           else Finite (scale2 (of_int m) e))"

text \<open>A rational is a double when rounding leaves it as it is.\<close>

definition representable :: "rat \<Rightarrow> bool" where
  "representable x \<longleftrightarrow> round_double x = Finite x"

text \<open>
  The conversion of the integer operand: correctly rounded, and
  \<^verbatim>\<open>OverflowError: int too large to convert to float\<close> when the rounded value is no
  finite double.
\<close>

definition int_to_float :: "int \<Rightarrow> rat result" where
  "int_to_float i =
     (case round_double (of_int i) of Finite r \<Rightarrow> Inr r | _ \<Rightarrow> Inl OverflowError)"

text \<open>The sum of a float and a finite double: the exact sum, rounded.\<close>

fun float_add :: "pyfloat \<Rightarrow> rat \<Rightarrow> pyfloat" where
  "float_add (Finite a) b = round_double (a + b)"
| "float_add PlusInf b = PlusInf"
| "float_add MinusInf b = MinusInf"

text \<open>
  \<^verbatim>\<open>+\<close> with the value of \<^verbatim>\<open>receptive_field_center\<close> on the left: \<^verbatim>\<open>None + x\<close> and
  \<^verbatim>\<open>float + str\<close> are a \<^verbatim>\<open>TypeError\<close>, \<^verbatim>\<open>float + int\<close> converts the integer and adds.
\<close>

fun py_add_float :: "pyfloat option \<Rightarrow> pyval \<Rightarrow> pyfloat option result" where
  "py_add_float (Some x) (PInt i) =
     and_then (int_to_float i) (\<lambda>y. Inr (Some (float_add x y)))"
| "py_add_float _ _ = Inl TypeError"

section \<open>The layer classes\<close>

text \<open>
  \<^verbatim>\<open>class Layer\<close> holds the name and the four derived attributes; \<^verbatim>\<open>class Conv(Layer)\<close>
  adds \<^verbatim>\<open>_padding\<close> (here \<open>padding_policy\<close>), \<^verbatim>\<open>kernel\<close>, \<^verbatim>\<open>padding\<close> and
  \<^verbatim>\<open>stride\<close>. An object is an \<^verbatim>\<open>Input\<close>, a \<^verbatim>\<open>Conv\<close> or a \<^verbatim>\<open>Pool\<close>, the last two
  with the same attributes.
\<close>

record layer =
  name :: pyval
  output_size :: pyval
  receptive_field_size :: pyval
  receptive_field_center :: "pyfloat option"
  jump :: pyval

record conv = layer +
  padding_policy :: pyval
  kernel :: pyval
  padding :: pyval
  stride :: pyval

datatype obj = Input layer | Conv conv | Pool conv

text \<open>\<^verbatim>\<open>Layer.__init__(self, name=None)\<close>\<close>

definition Layer_init :: "pyval \<Rightarrow> layer" where
  "Layer_init nm =
     \<lparr>name = nm, output_size = PNone, receptive_field_size = PNone,
      receptive_field_center = None, jump = PInt 1\<rparr>"

text \<open>\<^verbatim>\<open>Input.__init__(self, size, name=None)\<close>\<close>

definition Input_init :: "pyval \<Rightarrow> pyval \<Rightarrow> layer" where
  "Input_init size_arg nm =
     (Layer_init nm)\<lparr>output_size := size_arg, receptive_field_size := PInt 1,
        receptive_field_center := Some (Finite (1 / 2)), jump := PInt 1\<rparr>"

text \<open>
  \<^verbatim>\<open>Conv.__init__(self, kernel, stride=1, padding='same', name=None)\<close>. A keyword argument
  the caller leaves out is \<open>None\<close> here and takes the default of the signature.
  \<^verbatim>\<open>kernel // 2\<close> is evaluated only for \<^verbatim>\<open>'same'\<close> and can raise.
\<close>

definition Conv_init ::
  "pyval \<Rightarrow> pyval option \<Rightarrow> pyval option \<Rightarrow> pyval option \<Rightarrow> conv result" where
  "Conv_init kernel_arg stride_arg padding_arg name_arg =
     (let stride_v = (case stride_arg of None \<Rightarrow> PInt 1 | Some v \<Rightarrow> v);
          padding_v = (case padding_arg of None \<Rightarrow> PStr ''same'' | Some v \<Rightarrow> v);
          name_v = (case name_arg of None \<Rightarrow> PNone | Some v \<Rightarrow> v);
          self = layer.extend (Layer_init name_v)
                   (conv.fields PNone PNone PNone PNone)
      in if padding_v = PStr ''same'' then
           and_then (py_floordiv kernel_arg (PInt 2)) (\<lambda>half.
             Inr (self\<lparr>padding_policy := padding_v, kernel := kernel_arg,
                       padding := half, stride := stride_v\<rparr>))
         else if padding_v = PStr ''valid'' then
           Inr (self\<lparr>padding_policy := padding_v, kernel := kernel_arg,
                     padding := PInt 0, stride := stride_v\<rparr>)
         else
           Inr (self\<lparr>padding_policy := PNone, kernel := kernel_arg,
                     padding := padding_v, stride := stride_v\<rparr>))"

text \<open>\<^verbatim>\<open>Pool.__init__(self, size, name=None)\<close>: \<^verbatim>\<open>super().__init__(size, stride=size, name=name)\<close>\<close>

definition Pool_init :: "pyval \<Rightarrow> pyval option \<Rightarrow> conv result" where
  "Pool_init size_arg name_arg =
     Conv_init size_arg (Some size_arg) None
       (Some (case name_arg of None \<Rightarrow> PNone | Some v \<Rightarrow> v))"

subsection \<open>The transform\<close>

text \<open>
  \<^verbatim>\<open>(self.kernel % 2) + ((input_size + 2 * self.padding - self.kernel) // self.stride)\<close>,
  the operands evaluated left to right.
\<close>

definition calculate_output_size :: "conv \<Rightarrow> pyval \<Rightarrow> pyval result" where
  "calculate_output_size self input_size =
     and_then (py_mod (kernel self) (PInt 2)) (\<lambda>parity.
     and_then (py_mul (PInt 2) (padding self)) (\<lambda>twice.
     and_then (py_add input_size twice) (\<lambda>padded.
     and_then (py_sub padded (kernel self)) (\<lambda>span.
     and_then (py_floordiv span (stride self)) (\<lambda>steps.
     py_add parity steps)))))"

text \<open>\<^verbatim>\<open>input_jump * self.stride\<close>\<close>

definition calculate_output_jump :: "conv \<Rightarrow> pyval \<Rightarrow> pyval result" where
  "calculate_output_jump self input_jump = py_mul input_jump (stride self)"

text \<open>\<^verbatim>\<open>input_receptive_field + (self.kernel - 1) * input_jump\<close>\<close>

definition calculate_receptive_field_size :: "conv \<Rightarrow> pyval \<Rightarrow> pyval \<Rightarrow> pyval result" where
  "calculate_receptive_field_size self input_receptive_field input_jump =
     and_then (py_sub (kernel self) (PInt 1)) (\<lambda>k1.
     and_then (py_mul k1 input_jump) (\<lambda>grow.
     py_add input_receptive_field grow))"

text \<open>\<^verbatim>\<open>input_receptive_center + ((self.kernel - 1) // 2 - self.padding) * input_jump\<close>\<close>

definition calculate_receptive_field_center ::
  "conv \<Rightarrow> pyfloat option \<Rightarrow> pyval \<Rightarrow> pyfloat option result" where
  "calculate_receptive_field_center self input_receptive_center input_jump =
     and_then (py_sub (kernel self) (PInt 1)) (\<lambda>k1.
     and_then (py_floordiv k1 (PInt 2)) (\<lambda>half.
     and_then (py_sub half (padding self)) (\<lambda>shift.
     and_then (py_mul shift input_jump) (\<lambda>moved.
     py_add_float input_receptive_center moved))))"

text \<open>
  \<^verbatim>\<open>Conv.calculate(self, input_layer)\<close>: four assignments in the order of the source, each
  reading the predecessor only. An exception leaves the method (and the program); the
  result is then the exception.
\<close>

definition calculate :: "conv \<Rightarrow> 'a layer_scheme \<Rightarrow> conv result" where
  "calculate self input_layer =
     and_then (calculate_output_size self (output_size input_layer)) (\<lambda>a.
     and_then (calculate_receptive_field_size self
                 (receptive_field_size input_layer) (jump input_layer)) (\<lambda>b.
     and_then (calculate_receptive_field_center self
                 (receptive_field_center input_layer) (jump input_layer)) (\<lambda>c.
     and_then (calculate_output_jump self (jump input_layer)) (\<lambda>d.
     Inr (self\<lparr>output_size := a, receptive_field_size := b,
               receptive_field_center := c, jump := d\<rparr>)))))"

subsection \<open>Objects and method dispatch\<close>

text \<open>
  Attribute reads on the predecessor, whatever its class: \<^verbatim>\<open>calculate\<close> reads only the
  attributes of \<^verbatim>\<open>Layer\<close>.
\<close>

fun calculate_on :: "conv \<Rightarrow> obj \<Rightarrow> conv result" where
  "calculate_on self (Input l) = calculate self l"
| "calculate_on self (Conv c) = calculate self c"
| "calculate_on self (Pool c) = calculate self c"

text \<open>
  \<^verbatim>\<open>layer.calculate(previous_layer)\<close>: \<^verbatim>\<open>Input\<close> defines no \<^verbatim>\<open>calculate\<close>, \<^verbatim>\<open>Pool\<close>
  inherits that of \<^verbatim>\<open>Conv\<close>. The object keeps its class.
\<close>

fun obj_calculate :: "obj \<Rightarrow> obj \<Rightarrow> obj result" where
  "obj_calculate (Input l) prev = Inl AttributeError"
| "obj_calculate (Conv c) prev = and_then (calculate_on c prev) (\<lambda>c'. Inr (Conv c'))"
| "obj_calculate (Pool c) prev = and_then (calculate_on c prev) (\<lambda>c'. Inr (Pool c'))"

text \<open>The four derived attributes of an object, and its stride when it has one.\<close>

definition derived :: "'a layer_scheme \<Rightarrow> pyval \<times> pyval \<times> pyfloat option \<times> pyval" where
  "derived l = (output_size l, receptive_field_size l, receptive_field_center l, jump l)"

fun obj_derived :: "obj \<Rightarrow> pyval \<times> pyval \<times> pyfloat option \<times> pyval" where
  "obj_derived (Input l) = derived l"
| "obj_derived (Conv c) = derived c"
| "obj_derived (Pool c) = derived c"

fun obj_jump :: "obj \<Rightarrow> pyval" where
  "obj_jump (Input l) = jump l"
| "obj_jump (Conv c) = jump c"
| "obj_jump (Pool c) = jump c"

fun obj_stride :: "obj \<Rightarrow> pyval option" where
  "obj_stride (Input l) = None"
| "obj_stride (Conv c) = Some (stride c)"
| "obj_stride (Pool c) = Some (stride c)"

section \<open>The chain evaluator\<close>

text \<open>
  The loop of \<^verbatim>\<open>main\<close>:
  \<^verbatim>\<open>
  previous_layer = layers[0]
  for layer in layers[1:]:
      layer.calculate(previous_layer)
      previous_layer = layer
  \<close>
  \<open>calculate_rest previous_layer rest\<close> is the \<^verbatim>\<open>for\<close> loop over \<^verbatim>\<open>layers[1:]\<close>, returning
  the layers it has updated; \<open>evaluate_layers\<close> is the whole fragment, \<^verbatim>\<open>layers[0]\<close> raising
  \<^verbatim>\<open>IndexError\<close> on an empty list. The objects of the list are distinct
  (\<^verbatim>\<open>build_layers_from_config\<close> creates one per configuration record), so the in-place
  update of one layer changes no other.
\<close>

fun calculate_rest :: "obj \<Rightarrow> obj list \<Rightarrow> obj list result" where
  "calculate_rest previous_layer [] = Inr []"
| "calculate_rest previous_layer (l # rest) =
     and_then (obj_calculate l previous_layer) (\<lambda>l'.
     and_then (calculate_rest l' rest) (\<lambda>rest'. Inr (l' # rest')))"

definition evaluate_layers :: "obj list \<Rightarrow> obj list result" where
  "evaluate_layers layers =
     (case layers of
        [] \<Rightarrow> Inl IndexError
      | first # rest \<Rightarrow> and_then (calculate_rest first rest) (\<lambda>rest'. Inr (first # rest')))"

subsection \<open>The evaluator with a log of its writes\<close>

text \<open>
  To count the assignments to the derived attributes, the same code once more with a log:
  each of the four assignment statements of \<^verbatim>\<open>Conv.calculate\<close> updates the object and
  enters the name of the attribute it writes, and the loop of \<^verbatim>\<open>main\<close> enters each write
  with the position of the layer in \<^verbatim>\<open>layers\<close>. The other statements of the program
  write no derived attribute of a constructed layer.
\<close>

datatype attr = OutputSize | ReceptiveFieldSize | ReceptiveFieldCenter | Jump

text \<open>\<^verbatim>\<open>self.output_size = v\<close> and the three other assignments.\<close>

definition set_output_size :: "pyval \<Rightarrow> conv \<times> attr list \<Rightarrow> conv \<times> attr list" where
  "set_output_size v s = ((fst s)\<lparr>output_size := v\<rparr>, snd s @ [OutputSize])"

definition set_receptive_field_size ::
  "pyval \<Rightarrow> conv \<times> attr list \<Rightarrow> conv \<times> attr list" where
  "set_receptive_field_size v s =
     ((fst s)\<lparr>receptive_field_size := v\<rparr>, snd s @ [ReceptiveFieldSize])"

definition set_receptive_field_center ::
  "pyfloat option \<Rightarrow> conv \<times> attr list \<Rightarrow> conv \<times> attr list" where
  "set_receptive_field_center v s =
     ((fst s)\<lparr>receptive_field_center := v\<rparr>, snd s @ [ReceptiveFieldCenter])"

definition set_jump :: "pyval \<Rightarrow> conv \<times> attr list \<Rightarrow> conv \<times> attr list" where
  "set_jump v s = ((fst s)\<lparr>jump := v\<rparr>, snd s @ [Jump])"

text \<open>
  \<^verbatim>\<open>Conv.calculate\<close>, statement by statement: each right-hand side is evaluated on the
  object as it is at that moment, then assigned.
\<close>

definition calculate_logged :: "conv \<Rightarrow> 'a layer_scheme \<Rightarrow> (conv \<times> attr list) result" where
  "calculate_logged self input_layer =
     (let s0 = (self, []) in
      and_then (calculate_output_size (fst s0) (output_size input_layer)) (\<lambda>a.
      let s1 = set_output_size a s0 in
      and_then (calculate_receptive_field_size (fst s1)
                  (receptive_field_size input_layer) (jump input_layer)) (\<lambda>b.
      let s2 = set_receptive_field_size b s1 in
      and_then (calculate_receptive_field_center (fst s2)
                  (receptive_field_center input_layer) (jump input_layer)) (\<lambda>c.
      let s3 = set_receptive_field_center c s2 in
      and_then (calculate_output_jump (fst s3) (jump input_layer)) (\<lambda>d.
      Inr (set_jump d s3))))))"

fun calculate_on_logged :: "conv \<Rightarrow> obj \<Rightarrow> (conv \<times> attr list) result" where
  "calculate_on_logged self (Input l) = calculate_logged self l"
| "calculate_on_logged self (Conv c) = calculate_logged self c"
| "calculate_on_logged self (Pool c) = calculate_logged self c"

fun obj_calculate_logged :: "obj \<Rightarrow> obj \<Rightarrow> (obj \<times> attr list) result" where
  "obj_calculate_logged (Input l) prev = Inl AttributeError"
| "obj_calculate_logged (Conv c) prev =
     and_then (calculate_on_logged c prev) (\<lambda>(c', w). Inr (Conv c', w))"
| "obj_calculate_logged (Pool c) prev =
     and_then (calculate_on_logged c prev) (\<lambda>(c', w). Inr (Pool c', w))"

text \<open>
  The loop over \<^verbatim>\<open>layers[1:]\<close>, \<open>i\<close> being the position of the next layer in \<^verbatim>\<open>layers\<close>.
\<close>

fun calculate_rest_logged ::
  "nat \<Rightarrow> obj \<Rightarrow> obj list \<Rightarrow> (obj list \<times> (nat \<times> attr) list) result" where
  "calculate_rest_logged i previous_layer [] = Inr ([], [])"
| "calculate_rest_logged i previous_layer (l # rest) =
     and_then (obj_calculate_logged l previous_layer) (\<lambda>(l', w).
     and_then (calculate_rest_logged (Suc i) l' rest) (\<lambda>(rest', ws).
     Inr (l' # rest', map (Pair i) w @ ws)))"

definition evaluate_layers_logged :: "obj list \<Rightarrow> (obj list \<times> (nat \<times> attr) list) result" where
  "evaluate_layers_logged layers =
     (case layers of
        [] \<Rightarrow> Inl IndexError
      | first # rest \<Rightarrow>
          and_then (calculate_rest_logged 1 first rest) (\<lambda>(rest', ws). Inr (first # rest', ws)))"

text \<open>
  \<open>computed_from l prev l'\<close>: the object \<open>l'\<close> is the layer \<open>l\<close>, of the same class, with
  its four derived attributes set to what the four \<^verbatim>\<open>calculate_...\<close> methods of \<open>l\<close>
  return on the attributes of \<open>prev\<close>, and nothing else changed.
\<close>

fun computed_from :: "obj \<Rightarrow> obj \<Rightarrow> obj \<Rightarrow> bool" where
  "computed_from (Input l) prev l' = False"
| "computed_from (Conv c) prev l' =
     (case (l', obj_derived prev) of
        (Conv c', n, r, x, j) \<Rightarrow>
          calculate_output_size c n = Inr (output_size c')
          \<and> calculate_receptive_field_size c r j = Inr (receptive_field_size c')
          \<and> calculate_receptive_field_center c x j = Inr (receptive_field_center c')
          \<and> calculate_output_jump c j = Inr (jump c')
          \<and> c' = c\<lparr>output_size := output_size c',
                    receptive_field_size := receptive_field_size c',
                    receptive_field_center := receptive_field_center c',
                    jump := jump c'\<rparr>
      | _ \<Rightarrow> False)"
| "computed_from (Pool c) prev l' =
     (case (l', obj_derived prev) of
        (Pool c', n, r, x, j) \<Rightarrow>
          calculate_output_size c n = Inr (output_size c')
          \<and> calculate_receptive_field_size c r j = Inr (receptive_field_size c')
          \<and> calculate_receptive_field_center c x j = Inr (receptive_field_center c')
          \<and> calculate_output_jump c j = Inr (jump c')
          \<and> c' = c\<lparr>output_size := output_size c',
                    receptive_field_size := receptive_field_size c',
                    receptive_field_center := receptive_field_center c',
                    jump := jump c'\<rparr>
      | _ \<Rightarrow> False)"

section \<open>Layers from configuration records\<close>

text \<open>
  A layer configuration record is a \<^verbatim>\<open>dict\<close> with string keys. \<^verbatim>\<open>str.lower\<close> is modelled
  on the ASCII letters; no other character lowers to a letter of \<^verbatim>\<open>'conv'\<close> or
  \<^verbatim>\<open>'pool'\<close>, so the two comparisons of \<^verbatim>\<open>create_layer_from_config\<close> come out as in
  Python.
\<close>

type_synonym config = "string \<rightharpoonup> pyval"

definition lower_char :: "char \<Rightarrow> char" where
  "lower_char c =
     (case map_of (zip ''ABCDEFGHIJKLMNOPQRSTUVWXYZ'' ''abcdefghijklmnopqrstuvwxyz'') c of
        Some d \<Rightarrow> d
      | None \<Rightarrow> c)"

definition str_lower :: "string \<Rightarrow> string" where
  "str_lower s = map lower_char s"

text \<open>\<^verbatim>\<open>config.get(key, default)\<close>\<close>

definition dict_get :: "config \<Rightarrow> string \<Rightarrow> pyval \<Rightarrow> pyval" where
  "dict_get cfg key dflt = (case cfg key of None \<Rightarrow> dflt | Some v \<Rightarrow> v)"

text \<open>The three blocks that resolve the abbreviations, each an update of the record.\<close>

definition resolve_kernel_size :: "config \<Rightarrow> config" where
  "resolve_kernel_size cfg =
     (if cfg ''kernel_size'' \<noteq> None then cfg
      else if cfg ''kernel'' \<noteq> None then cfg(''kernel_size'' := cfg ''kernel'')
      else if cfg ''k'' \<noteq> None then cfg(''kernel_size'' := cfg ''k'')
      else cfg)"

definition resolve_stride :: "config \<Rightarrow> config" where
  "resolve_stride cfg =
     (if cfg ''stride'' = None \<and> cfg ''s'' \<noteq> None then cfg(''stride'' := cfg ''s'') else cfg)"

definition resolve_padding :: "config \<Rightarrow> config" where
  "resolve_padding cfg =
     (if cfg ''padding'' = None \<and> cfg ''p'' \<noteq> None then cfg(''padding'' := cfg ''p'') else cfg)"

text \<open>
  \<^verbatim>\<open>create_layer_from_config(config)\<close>. The record is updated in place, so the function
  returns the record as the caller finds it afterwards, together with the layer or the
  exception. \<^verbatim>\<open>.lower()\<close> on a value that is no string raises \<^verbatim>\<open>AttributeError\<close> before
  anything is written; \<^verbatim>\<open>config['kernel_size']\<close> raises \<^verbatim>\<open>KeyError\<close> when the key is
  still missing; with a type other than \<^verbatim>\<open>'conv'\<close> and \<^verbatim>\<open>'pool'\<close> no branch binds
  \<^verbatim>\<open>layer\<close> and \<^verbatim>\<open>return layer\<close> raises \<^verbatim>\<open>UnboundLocalError\<close>.
\<close>

definition create_layer_from_config :: "config \<Rightarrow> config \<times> obj result" where
  "create_layer_from_config config =
     (case dict_get config ''type'' (PStr ''conv'') of
        PStr type_str \<Rightarrow>
          (let layer_type = str_lower type_str;
               config' = resolve_padding (resolve_stride (resolve_kernel_size config))
           in (config',
               if layer_type = ''conv'' then
                 (case config' ''kernel_size'' of
                    None \<Rightarrow> Inl KeyError
                  | Some k \<Rightarrow>
                      and_then (Conv_init k
                                  (Some (dict_get config' ''stride'' (PInt 1)))
                                  (Some (dict_get config' ''padding'' (PStr ''same'')))
                                  (Some (dict_get config' ''name'' PNone)))
                        (\<lambda>c. Inr (Conv c)))
               else if layer_type = ''pool'' then
                 (case config' ''kernel_size'' of
                    None \<Rightarrow> Inl KeyError
                  | Some k \<Rightarrow>
                      and_then (Pool_init k (Some (dict_get config' ''name'' PNone)))
                        (\<lambda>c. Inr (Pool c)))
               else Inl UnboundLocalError))
      | _ \<Rightarrow> (config, Inl AttributeError))"

text \<open>
  The precedence of keys as the specification words it: the value of the first key of the
  list that the record has.
\<close>

fun first_present :: "config \<Rightarrow> string list \<Rightarrow> pyval option" where
  "first_present cfg [] = None"
| "first_present cfg (key # keys) =
     (case cfg key of Some v \<Rightarrow> Some v | None \<Rightarrow> first_present cfg keys)"

section \<open>Unfolding rules\<close>

lemmas init_defs = Conv_init_def Pool_init_def Layer_init_def Input_init_def
  layer.extend_def conv.fields_def

lemmas calc_defs = calculate_def calculate_output_size_def
  calculate_receptive_field_size_def calculate_receptive_field_center_def
  calculate_output_jump_def

lemmas config_defs = create_layer_from_config_def dict_get_def str_lower_def lower_char_def
  resolve_kernel_size_def resolve_stride_def resolve_padding_def

lemma and_then_case: "and_then m f = (case m of Inl e \<Rightarrow> Inl e | Inr v \<Rightarrow> f v)"
  by (cases m) simp_all

section \<open>Floats: evaluation\<close>

lemma round_double_zero: "round_double 0 = Finite 0"
  by (simp add: round_double_def)

lemma int_to_float_zero: "int_to_float 0 = Inr 0"
  by (simp add: int_to_float_def round_double_zero)

lemma round_double_half: "round_double (1 / 2) = Finite (1 / 2)"
  by code_simp

lemma int_to_float_minus_one: "int_to_float (- 1) = Inr (- 1)"
  by code_simp

lemma round_double_minus_half: "round_double (- (1 / 2)) = Finite (- (1 / 2))"
  by code_simp

lemmas float_evals = round_double_zero int_to_float_zero round_double_half
  int_to_float_minus_one round_double_minus_half

lemma float_add_exact:
  "representable (a + b) \<Longrightarrow> float_add (Finite a) b = Finite (a + b)"
  by (simp add: representable_def)

lemma int_to_float_exact:
  "representable (of_int i) \<Longrightarrow> int_to_float i = Inr (of_int i)"
  by (simp add: representable_def int_to_float_def)

subsection \<open>Doubles that need no rounding\<close>

lemma bitlen_le:
  assumes "0 < a" and "a < 2 ^ k"
  shows "1 \<le> bitlen a \<and> bitlen a \<le> int k"
proof -
  from bitlen_bounds [OF assms(1)] have lo: "(2::int) ^ nat (bitlen a - 1) \<le> a" by simp
  with assms(2) have "(2::int) ^ nat (bitlen a - 1) < 2 ^ k" by linarith
  then have "nat (bitlen a - 1) < k" by simp
  moreover have "1 \<le> bitlen a"
    using assms(1) bitlen_eq_zero_iff [of a] bitlen_nonneg [of a] by linarith
  ultimately show ?thesis by linarith
qed

lemma floor_log2_bounds:
  assumes "1 / 2 \<le> x" and "x < 2 ^ 52"
  shows "- 1 \<le> floor_log2 x \<and> floor_log2 x \<le> 51"
proof (cases "1 \<le> x")
  case True
  then have "0 < \<lfloor>x\<rfloor>" by linarith
  moreover have "\<lfloor>x\<rfloor> < 2 ^ 52"
  proof -
    have "of_int \<lfloor>x\<rfloor> \<le> x" by simp
    with assms(2) have "(of_int \<lfloor>x\<rfloor> :: rat) < of_int (2 ^ 52)" by simp
    then show ?thesis by (simp only: of_int_less_iff)
  qed
  ultimately have "1 \<le> bitlen \<lfloor>x\<rfloor> \<and> bitlen \<lfloor>x\<rfloor> \<le> 52"
    using bitlen_le [of "\<lfloor>x\<rfloor>" 52] by simp
  then show ?thesis using True by (simp add: floor_log2_def)
next
  case False
  then have "1 < 1 / x" and "1 / x \<le> 2"
    using assms(1) by (simp_all add: field_simps)
  then have "\<lceil>1 / x\<rceil> = 2"
    by (simp add: ceiling_eq_iff)
  then show ?thesis using False by (simp add: floor_log2_def compute_bitlen)
qed

lemma round_half_even_int: "round_half_even (of_int m) = m"
  by (simp add: round_half_even_def)

text \<open>Every half of an integer of magnitude below \<open>2 ^ 52\<close> is a double.\<close>

lemma half_integer_representable:
  assumes "\<bar>of_int n / 2 :: rat\<bar> < 2 ^ 52"
  shows "representable (of_int n / 2)"
proof (cases "n = 0")
  case True
  then show ?thesis by (simp add: representable_def round_double_def)
next
  case False
  let ?x = "of_int n / 2 :: rat"
  have "1 \<le> \<bar>n\<bar>" using False by linarith
  then have "(1::rat) \<le> \<bar>of_int n\<bar>" by (metis of_int_1 of_int_abs of_int_le_iff)
  then have lo: "1 / 2 \<le> \<bar>?x\<bar>" by simp
  from floor_log2_bounds [OF lo assms]
  have L: "- 1 \<le> floor_log2 \<bar>?x\<bar>" "floor_log2 \<bar>?x\<bar> \<le> 51" by simp_all
  define e where "e = max (- 1074) (floor_log2 \<bar>?x\<bar> - 52)"
  have e: "- 53 \<le> e" "e \<le> - 1" using L by (simp_all add: e_def)
  define k where "k = nat (- e - 1)"
  have k: "nat (- e) = Suc k" using e by (simp add: k_def)
  have s: "scale2 ?x (- e) = of_int (n * 2 ^ k)"
    using e by (simp add: scale2_def k)
  have m: "round_half_even (scale2 ?x (- e)) = n * 2 ^ k"
    unfolding s by (rule round_half_even_int)
  have inv: "scale2 (of_int (n * 2 ^ k)) e = ?x"
    using e by (simp add: scale2_def k)
  have "?x \<noteq> 0" using False by simp
  then have "round_double ?x = Finite ?x"
    using e unfolding round_double_def Let_def e_def [symmetric] m inv by simp
  then show ?thesis by (simp add: representable_def)
qed

lemma integer_representable:
  assumes "\<bar>i\<bar> < 2 ^ 51"
  shows "representable (of_int i)"
proof -
  have "\<bar>of_int (2 * i) / 2 :: rat\<bar> < 2 ^ 52"
  proof -
    have "(of_int \<bar>i\<bar> :: rat) < of_int (2 ^ 51)" using assms by (simp only: of_int_less_iff)
    then show ?thesis by simp
  qed
  from half_integer_representable [OF this] show ?thesis by simp
qed

section \<open>Conv.calculate\<close>

text \<open>
  Kernel \<open>2 ^ 53 + 3\<close>, stride 1, padding 0 on \<^verbatim>\<open>Input(2 ^ 53 + 3)\<close>: the integer
  \<open>((K - 1) div 2 - P) * J\<close> is 4503599627370497, and the center of the layer is the
  float 4503599627370498.0, not 4503599627370497.5: the sum lies between two doubles and
  is rounded to the even one.
\<close>

theorem center_rounding_counterexample:
  "map_sum id receptive_field_center
     (calculate
        \<lparr>name = PNone, output_size = PNone, receptive_field_size = PNone,
         receptive_field_center = None, jump = PInt 1, padding_policy = PNone,
         kernel = PInt 9007199254740995, padding = PInt 0, stride = PInt 1\<rparr>
        (Input_init (PInt 9007199254740995) PNone)) =
   Inr (Some (Finite 4503599627370498))
   \<and> (4503599627370498 :: rat) \<noteq> 1 / 2 + of_int (((9007199254740995 - 1) div 2 - 0) * 1)"
proof -
  have m: "int_to_float 4503599627370497 = Inr 4503599627370497"
    by code_simp
  have r: "round_double (9007199254740995 / 2) = Finite 4503599627370498"
    by code_simp
  have "(1 / 2 + 4503599627370497 :: rat) = 9007199254740995 / 2"
    by simp
  then have "float_add (Finite (1 / 2)) 4503599627370497 = Finite 4503599627370498"
    using r by simp
  then show ?thesis
    using m by (simp add: calc_defs init_defs)
qed

text \<open>
  C1, amended. A Conv layer with integer kernel \<open>K\<close>, non-zero integer stride \<open>S\<close> and
  resolved integer padding \<open>P\<close>, transformed against a predecessor with output size \<open>N\<close>,
  receptive field size \<open>R\<close>, receptive field center the float \<open>C\<close> and jump \<open>J\<close>, gets the
  output size \<open>K mod 2 + (N + 2 * P - K) div S\<close> and the receptive field size
  \<open>R + (K - 1) * J\<close>. With \<open>M = ((K - 1) div 2 - P) * J\<close>, its receptive field center is the
  double nearest to \<open>C + m\<close>, where \<open>m\<close> is the double nearest to \<open>M\<close>, and the transform
  raises \<^verbatim>\<open>OverflowError\<close> when \<open>M\<close> is too large for a double. When \<open>M\<close> and \<open>C + M\<close> are
  doubles, the center is exactly \<open>C + M\<close>; they are whenever \<open>C\<close> is half of an integer,
  \<open>\<bar>M\<bar> < 2 ^ 51\<close> and \<open>\<bar>C + M\<bar> < 2 ^ 52\<close>. Nothing but the four derived attributes
  changes.
\<close>

theorem calculate_formulas:
  assumes "kernel self = PInt K" and "stride self = PInt S" and "padding self = PInt P"
    and "S \<noteq> 0"
    and "output_size prev = PInt N" and "receptive_field_size prev = PInt R"
    and "receptive_field_center prev = Some (Finite C)" and "jump prev = PInt J"
  shows "calculate self prev =
           and_then (int_to_float (((K - 1) div 2 - P) * J)) (\<lambda>m.
             Inr (self\<lparr>output_size := PInt (K mod 2 + (N + 2 * P - K) div S),
                       receptive_field_size := PInt (R + (K - 1) * J),
                       receptive_field_center := Some (round_double (C + m)),
                       jump := PInt (J * S)\<rparr>))
         \<and> (representable (of_int (((K - 1) div 2 - P) * J)) \<and>
            representable (C + of_int (((K - 1) div 2 - P) * J)) \<longrightarrow>
            calculate self prev =
              Inr (self\<lparr>output_size := PInt (K mod 2 + (N + 2 * P - K) div S),
                        receptive_field_size := PInt (R + (K - 1) * J),
                        receptive_field_center :=
                          Some (Finite (C + of_int (((K - 1) div 2 - P) * J))),
                        jump := PInt (J * S)\<rparr>))
         \<and> (C = of_int c / 2 \<and> \<bar>((K - 1) div 2 - P) * J\<bar> < 2 ^ 51 \<and>
            \<bar>C + of_int (((K - 1) div 2 - P) * J)\<bar> < 2 ^ 52 \<longrightarrow>
            calculate self prev =
              Inr (self\<lparr>output_size := PInt (K mod 2 + (N + 2 * P - K) div S),
                        receptive_field_size := PInt (R + (K - 1) * J),
                        receptive_field_center :=
                          Some (Finite (C + of_int (((K - 1) div 2 - P) * J))),
                        jump := PInt (J * S)\<rparr>))"
proof -
  let ?M = "((K - 1) div 2 - P) * J"
  let ?exact = "calculate self prev =
          Inr (self\<lparr>output_size := PInt (K mod 2 + (N + 2 * P - K) div S),
                    receptive_field_size := PInt (R + (K - 1) * J),
                    receptive_field_center := Some (Finite (C + of_int ?M)),
                    jump := PInt (J * S)\<rparr>)"
  have g: "calculate self prev =
           and_then (int_to_float ?M) (\<lambda>m.
             Inr (self\<lparr>output_size := PInt (K mod 2 + (N + 2 * P - K) div S),
                       receptive_field_size := PInt (R + (K - 1) * J),
                       receptive_field_center := Some (round_double (C + m)),
                       jump := PInt (J * S)\<rparr>))"
    using assms by (simp add: calc_defs and_then_case split: sum.splits)
  have r: ?exact if "representable (of_int ?M)" and "representable (C + of_int ?M)"
    unfolding g using that by (simp add: int_to_float_exact representable_def)
  have h: ?exact
    if "C = of_int c / 2" and "\<bar>?M\<bar> < 2 ^ 51" and "\<bar>C + of_int ?M\<bar> < 2 ^ 52"
  proof -
    have eq: "C + of_int ?M = of_int (c + 2 * ?M) / 2"
      using that(1) by simp
    have "\<bar>of_int (c + 2 * ?M) / 2 :: rat\<bar> < 2 ^ 52"
      using that(3) by (simp only: eq)
    then have "representable (of_int (c + 2 * ?M) / 2)"
      by (rule half_integer_representable)
    then have "representable (C + of_int ?M)"
      by (simp only: eq)
    with integer_representable [OF that(2)] show ?thesis by (rule r)
  qed
  from g r h show ?thesis by blast
qed

text \<open>
  The example of the specification: \<^verbatim>\<open>Pool(2)\<close>, that is kernel 2, stride 2 and padding 1,
  on a layer with output size 10, receptive field size 3, center 0.5 and jump 1.
\<close>

theorem calculate_formulas_witness:
  "representable (of_int (((2 - 1) div 2 - 1) * 1))
   \<and> representable (1 / 2 + of_int (((2 - 1) div 2 - 1) * 1))
   \<and> (1 / 2 :: rat) = of_int 1 / 2
   \<and> \<bar>((2 - 1) div 2 - 1) * 1 :: int\<bar> < 2 ^ 51
   \<and> \<bar>1 / 2 + of_int (((2 - 1) div 2 - 1) * 1) :: rat\<bar> < 2 ^ 52
   \<and> calculate
       \<lparr>name = PNone, output_size = PNone, receptive_field_size = PNone,
        receptive_field_center = None, jump = PInt 1, padding_policy = PStr ''same'',
        kernel = PInt 2, padding = PInt 1, stride = PInt 2\<rparr>
       \<lparr>name = PNone, output_size = PInt 10, receptive_field_size = PInt 3,
        receptive_field_center = Some (Finite (1 / 2)), jump = PInt 1\<rparr> =
     Inr \<lparr>name = PNone, output_size = PInt 5, receptive_field_size = PInt 4,
          receptive_field_center = Some (Finite (- (1 / 2))), jump = PInt 2,
          padding_policy = PStr ''same'', kernel = PInt 2, padding = PInt 1,
          stride = PInt 2\<rparr>"
proof -
  have a: "representable (- 1)"
    unfolding representable_def by code_simp
  have b: "representable (- (1 / 2))"
    unfolding representable_def by code_simp
  from a b calculate_formulas [of
      "\<lparr>name = PNone, output_size = PNone, receptive_field_size = PNone,
        receptive_field_center = None, jump = PInt 1, padding_policy = PStr ''same'',
        kernel = PInt 2, padding = PInt 1, stride = PInt 2\<rparr>"
      2 2 1
      "\<lparr>name = PNone, output_size = PInt 10, receptive_field_size = PInt 3,
        receptive_field_center = Some (Finite (1 / 2)), jump = PInt 1\<rparr>"
      10 3 "1 / 2" 1 1]
  show ?thesis by (simp add: float_evals)
qed

section \<open>Pool and Conv\<close>

text \<open>The derived attributes that the transform computes do not depend on the name or the class.\<close>

lemma calculate_derived_cong:
  assumes "kernel a = kernel b" and "padding a = padding b" and "stride a = stride b"
  shows "map_sum id derived (calculate a prev) = map_sum id derived (calculate b prev)"
  using assms
  by (simp add: calc_defs and_then_case derived_def split: sum.splits)

lemma obj_calculate_derived_cong:
  assumes "kernel a = kernel b" and "padding a = padding b" and "stride a = stride b"
  shows "map_sum id obj_derived (obj_calculate (Pool a) prev) =
         map_sum id obj_derived (obj_calculate (Conv b) prev)"
proof -
  have "map_sum id derived (calculate_on a prev) = map_sum id derived (calculate_on b prev)"
  proof (cases prev)
    case (Input l)
    then show ?thesis using calculate_derived_cong [OF assms, of l] by simp
  next
    case (Conv c)
    then show ?thesis using calculate_derived_cong [OF assms, of c] by simp
  next
    case (Pool c)
    then show ?thesis using calculate_derived_cong [OF assms, of c] by simp
  qed
  then show ?thesis
    by (cases "calculate_on a prev"; cases "calculate_on b prev") simp_all
qed

text \<open>
  C2. \<^verbatim>\<open>Pool(size)\<close>, transformed against any predecessor, ends with the same four derived
  attributes (or the same exception) as \<^verbatim>\<open>Conv(kernel=size, stride=size)\<close> with the padding
  left to its default \<^verbatim>\<open>'same'\<close>, whatever the two names are.
\<close>

theorem pool_same_as_conv:
  "map_sum id obj_derived (and_then (Pool_init s nm) (\<lambda>p. obj_calculate (Pool p) prev)) =
   map_sum id obj_derived
     (and_then (Conv_init s (Some s) None nm') (\<lambda>c. obj_calculate (Conv c) prev))"
proof (cases "py_floordiv s (PInt 2)")
  case (Inl e)
  then show ?thesis by (simp add: init_defs)
next
  case (Inr h)
  then obtain a b where a: "Pool_init s nm = Inr a"
    and b: "Conv_init s (Some s) None nm' = Inr b"
    and "kernel a = kernel b" and "padding a = padding b" and "stride a = stride b"
    by (simp add: init_defs)
  then show ?thesis
    using obj_calculate_derived_cong [of a b prev] by simp
qed

section \<open>Conv.__init__\<close>

text \<open>
  C3. For a Conv layer constructed with integer kernel \<open>K\<close>: padding \<^verbatim>\<open>'same'\<close> resolves to
  \<open>K div 2\<close> (floor division) and padding \<^verbatim>\<open>'valid'\<close> to 0, each keeping the name of the
  policy; any other padding value \<open>p\<close> is stored as it is, with no policy name.
\<close>

theorem conv_padding_resolution:
  "(\<exists>c. Conv_init (PInt K) s (Some (PStr ''same'')) nm = Inr c
        \<and> padding c = PInt (K div 2) \<and> padding_policy c = PStr ''same'')
   \<and> (\<exists>c. Conv_init (PInt K) s (Some (PStr ''valid'')) nm = Inr c
        \<and> padding c = PInt 0 \<and> padding_policy c = PStr ''valid'')
   \<and> (p \<noteq> PStr ''same'' \<and> p \<noteq> PStr ''valid'' \<longrightarrow>
        (\<exists>c. Conv_init (PInt K) s (Some p) nm = Inr c
           \<and> padding c = p \<and> padding_policy c = PNone))"
  by (simp add: init_defs)

theorem conv_padding_resolution_witness:
  "(\<exists>c. Conv_init (PInt 5) None (Some (PStr ''same'')) None = Inr c
        \<and> padding c = PInt 2 \<and> padding_policy c = PStr ''same'')
   \<and> (\<exists>c. Conv_init (PInt 5) None (Some (PStr ''valid'')) None = Inr c
        \<and> padding c = PInt 0 \<and> padding_policy c = PStr ''valid'')
   \<and> PInt 3 \<noteq> PStr ''same'' \<and> PInt 3 \<noteq> PStr ''valid''
   \<and> (\<exists>c. Conv_init (PInt 5) None (Some (PInt 3)) None = Inr c
           \<and> padding c = PInt 3 \<and> padding_policy c = PNone)"
  using conv_padding_resolution [of 5 None None "PInt 3"] by simp

section \<open>Kernel parity and the output size\<close>

lemma div_pred:
  fixes m S :: int
  assumes "0 < S"
  shows "(m - 1) div S = m div S - (if S dvd m then 1 else 0)"
proof (cases "S dvd m")
  case True
  then have "m = S * (m div S)" by simp
  then have "m - 1 = S * (m div S - 1) + (S - 1)"
    by (simp add: algebra_simps)
  moreover have "0 \<le> S - 1" and "S - 1 < S" using assms by simp_all
  ultimately have "(m - 1) div S = m div S - 1"
    by (rule int_div_pos_eq)
  then show ?thesis using True by simp
next
  case False
  then have "m mod S \<noteq> 0" by (simp add: mod_eq_0_iff_dvd)
  moreover have "0 \<le> m mod S" and "m mod S < S" using assms by simp_all
  ultimately have r: "0 \<le> m mod S - 1" "m mod S - 1 < S" by linarith+
  have "m = S * (m div S) + m mod S" by simp
  then have "m - 1 = S * (m div S) + (m mod S - 1)" by linarith
  then have "(m - 1) div S = m div S"
    using r by (rule int_div_pos_eq)
  then show ?thesis using False by simp
qed

text \<open>
  Kernel 3 against kernel 4, both with stride 1 and padding 1 on an input of size 10:
  the output sizes are 10 and 8, two apart.
\<close>

theorem parity_counterexample:
  "calculate_output_size
     \<lparr>name = PNone, output_size = PNone, receptive_field_size = PNone,
      receptive_field_center = None, jump = PInt 1, padding_policy = PNone,
      kernel = PInt 3, padding = PInt 1, stride = PInt 1\<rparr> (PInt 10) = Inr (PInt 10)
   \<and> calculate_output_size
     \<lparr>name = PNone, output_size = PNone, receptive_field_size = PNone,
      receptive_field_center = None, jump = PInt 1, padding_policy = PNone,
      kernel = PInt 4, padding = PInt 1, stride = PInt 1\<rparr> (PInt 10) = Inr (PInt 8)
   \<and> (8::int) \<noteq> 10 - 1"
  by (simp add: calculate_output_size_def)

text \<open>
  C5, amended. Two Conv layers with consecutive kernels \<open>K\<close> and \<open>K + 1\<close>, the same
  positive stride \<open>S\<close>, the same integer padding \<open>P\<close> and the same input size \<open>N\<close>: when
  \<open>S\<close> does not divide \<open>N + 2 * P - K\<close>, the output size of the even kernel is exactly one
  less than that of the odd kernel; when \<open>S\<close> divides it (as stride 1 always does), the even
  kernel's output size is two less for odd \<open>K\<close> and the same for even \<open>K\<close>.
\<close>

theorem consecutive_kernels_output_size:
  assumes "kernel a = PInt K" and "kernel b = PInt (K + 1)"
    and "stride a = PInt S" and "stride b = PInt S"
    and "padding a = PInt P" and "padding b = PInt P"
    and "0 < S"
  shows "\<exists>x y. calculate_output_size a (PInt N) = Inr (PInt x)
           \<and> calculate_output_size b (PInt N) = Inr (PInt y)
           \<and> (if odd K then y = x - 1 - (if S dvd N + 2 * P - K then 1 else 0)
               else x = y - 1 + (if S dvd N + 2 * P - K then 1 else 0))"
proof -
  have a: "calculate_output_size a (PInt N) = Inr (PInt (K mod 2 + (N + 2 * P - K) div S))"
    using assms by (simp add: calculate_output_size_def)
  have b: "calculate_output_size b (PInt N) =
             Inr (PInt ((K + 1) mod 2 + (N + 2 * P - K - 1) div S))"
    using assms by (simp add: calculate_output_size_def algebra_simps)
  have d: "(N + 2 * P - K - 1) div S =
             (N + 2 * P - K) div S - (if S dvd N + 2 * P - K then 1 else 0)"
    using div_pred [OF \<open>0 < S\<close>, of "N + 2 * P - K"] by simp
  show ?thesis
  proof (cases "odd K")
    case True
    then have "K mod 2 = 1" and "(K + 1) mod 2 = 0"
      by presburger+
    then show ?thesis using a b d True by simp
  next
    case False
    then have "K mod 2 = 0" and "(K + 1) mod 2 = 1"
      by presburger+
    then show ?thesis using a b d False by simp
  qed
qed

theorem consecutive_kernels_output_size_witness:
  "\<exists>x y. calculate_output_size
            \<lparr>name = PNone, output_size = PNone, receptive_field_size = PNone,
             receptive_field_center = None, jump = PInt 1, padding_policy = PNone,
             kernel = PInt 3, padding = PInt 1, stride = PInt 2\<rparr> (PInt 10) = Inr (PInt x)
         \<and> calculate_output_size
            \<lparr>name = PNone, output_size = PNone, receptive_field_size = PNone,
             receptive_field_center = None, jump = PInt 1, padding_policy = PNone,
             kernel = PInt 4, padding = PInt 1, stride = PInt 2\<rparr> (PInt 10) = Inr (PInt y)
         \<and> y = x - 1"
  using consecutive_kernels_output_size [of
      "\<lparr>name = PNone, output_size = PNone, receptive_field_size = PNone,
        receptive_field_center = None, jump = PInt 1, padding_policy = PNone,
        kernel = PInt 3, padding = PInt 1, stride = PInt 2\<rparr>" 3
      "\<lparr>name = PNone, output_size = PNone, receptive_field_size = PNone,
        receptive_field_center = None, jump = PInt 1, padding_policy = PNone,
        kernel = PInt 4, padding = PInt 1, stride = PInt 2\<rparr>" 2 1 10]
  by simp

section \<open>The chain evaluator: jump\<close>

lemma calculate_jump:
  assumes "calculate c prev = Inr c'" and "stride c = PInt s" and "jump prev = PInt j"
  shows "jump c' = PInt (j * s) \<and> stride c' = stride c"
  using assms by (auto simp: calc_defs and_then_case split: sum.splits)

lemma obj_calculate_jump:
  assumes "obj_calculate l prev = Inr l'" and "obj_stride l = Some (PInt s)"
    and "obj_jump prev = PInt j"
  shows "obj_jump l' = PInt (j * s)"
proof -
  have *: "calculate_on c prev = Inr c' \<Longrightarrow> stride c = PInt s \<Longrightarrow> jump c' = PInt (j * s)"
    for c c'
    using assms(3) by (cases prev) (auto dest: calculate_jump)
  show ?thesis
    using assms(1,2) by (cases l) (auto simp: and_then_case split: sum.splits dest: *)
qed

lemma calculate_rest_jump:
  assumes "obj_jump prev = PInt j"
    and "map obj_stride rest = map (\<lambda>s. Some (PInt s)) ss"
    and "calculate_rest prev rest = Inr rs"
  shows "length rs = length rest \<and>
         (\<forall>i < length rest. obj_jump (rs ! i) = PInt (j * prod_list (take (Suc i) ss)))"
  using assms
proof (induction rest arbitrary: prev j ss rs)
  case Nil
  then show ?case by simp
next
  case (Cons l rest)
  from Cons.prems(2) obtain s ss' where ss: "ss = s # ss'"
    and s: "obj_stride l = Some (PInt s)"
    and ss': "map obj_stride rest = map (\<lambda>s. Some (PInt s)) ss'"
    by (cases ss) auto
  from Cons.prems(3) obtain l' rs' where l': "obj_calculate l prev = Inr l'"
    and rs': "calculate_rest l' rest = Inr rs'" and rs: "rs = l' # rs'"
    by (auto simp: and_then_case split: sum.splits)
  have j': "obj_jump l' = PInt (j * s)"
    using obj_calculate_jump [OF l' s Cons.prems(1)] .
  from Cons.IH [OF j' ss' rs']
  have len: "length rs' = length rest"
    and tl: "\<forall>i < length rest. obj_jump (rs' ! i) = PInt (j * s * prod_list (take (Suc i) ss'))"
    by simp_all
  have "obj_jump (rs ! i) = PInt (j * prod_list (take (Suc i) ss))"
    if "i < length (l # rest)" for i
  proof (cases i)
    case 0
    then show ?thesis using j' rs ss by simp
  next
    case (Suc i')
    then show ?thesis using tl that rs ss by (simp add: mult.assoc)
  qed
  then show ?case using len rs by simp
qed

text \<open>
  C4. A chain that starts with an Input layer (jump 1) and goes on with Conv and Pool
  layers of integer strides \<open>ss\<close>, once evaluated, has at every position \<open>i\<close> the jump
  \<open>prod_list (take i ss)\<close>: the product of the strides of the layers after the Input up to
  and including that position, and 1 at the Input itself. This holds at every position,
  so for every prefix of the chain.
\<close>

theorem jump_is_stride_product:
  assumes "jump l0 = PInt 1"
    and "map obj_stride rest = map (\<lambda>s. Some (PInt s)) ss"
    and "evaluate_layers (Input l0 # rest) = Inr rs"
  shows "length rs = Suc (length rest) \<and>
         (\<forall>i \<le> length rest. obj_jump (rs ! i) = PInt (prod_list (take i ss)))"
proof -
  from assms(3) obtain rs' where rs': "calculate_rest (Input l0) rest = Inr rs'"
    and rs: "rs = Input l0 # rs'"
    by (auto simp: evaluate_layers_def and_then_case split: sum.splits)
  have "obj_jump (Input l0) = PInt 1" using assms(1) by simp
  from calculate_rest_jump [OF this assms(2) rs']
  have len: "length rs' = length rest"
    and tl: "\<forall>i < length rest. obj_jump (rs' ! i) = PInt (prod_list (take (Suc i) ss))"
    by simp_all
  have "obj_jump (rs ! i) = PInt (prod_list (take i ss))" if "i \<le> length rest" for i
  proof (cases i)
    case 0
    then show ?thesis using rs assms(1) by simp
  next
    case (Suc i')
    then show ?thesis using tl that rs by simp
  qed
  then show ?thesis using len rs by simp
qed

text \<open>
  The chain of the specification's examples: \<^verbatim>\<open>Input(10)\<close>, \<^verbatim>\<open>Conv(kernel=3)\<close>,
  \<^verbatim>\<open>Pool(2)\<close>, with the jumps 1, 1 and 2.
\<close>

theorem jump_is_stride_product_witness:
  "map_sum id (map obj_jump)
     (evaluate_layers
        [Input (Input_init (PInt 10) PNone),
         Conv (projr (Conv_init (PInt 3) None None None)),
         Pool (projr (Pool_init (PInt 2) None))]) =
   Inr [PInt 1, PInt 1, PInt 2]"
proof -
  let ?rest = "[Conv (projr (Conv_init (PInt 3) None None None)),
                Pool (projr (Pool_init (PInt 2) None))]"
  have j: "jump (Input_init (PInt 10) PNone) = PInt 1"
    by (simp add: init_defs)
  have st: "map obj_stride ?rest = map (\<lambda>s. Some (PInt s)) [1, 2]"
    by (simp add: init_defs)
  obtain rs where ev: "evaluate_layers (Input (Input_init (PInt 10) PNone) # ?rest) = Inr rs"
    by (simp add: evaluate_layers_def init_defs calc_defs float_evals)
  from jump_is_stride_product [OF j st ev]
  have len: "length rs = 3"
    and all: "\<forall>i \<le> 2. obj_jump (rs ! i) = PInt (prod_list (take i [1, 2]))"
    by simp_all
  from len obtain a b c where rs: "rs = [a, b, c]"
    by (auto simp: length_Suc_conv numeral_3_eq_3)
  from all [rule_format, of 0] all [rule_format, of 1] all [rule_format, of 2]
  have "map obj_jump rs = [PInt 1, PInt 1, PInt 2]"
    unfolding rs by simp
  then show ?thesis using ev by simp
qed

section \<open>The chain evaluator: identity convolutions\<close>

lemma identity_calculate:
  assumes "kernel c = PInt 1" and "stride c = PInt 1" and "padding c = PInt 0"
    and "obj_derived prev = (PInt N, PInt 1, Some (Finite (1 / 2)), PInt 1)"
  shows "\<exists>c'. obj_calculate (Conv c) prev = Inr (Conv c')
           \<and> derived c' = (PInt N, PInt 1, Some (Finite (1 / 2)), PInt 1)"
  using assms by (cases prev) (simp_all add: calc_defs derived_def float_evals)

lemma identity_calculate_rest:
  assumes "obj_derived prev = (PInt N, PInt 1, Some (Finite (1 / 2)), PInt 1)"
    and "\<forall>c \<in> set cs. kernel c = PInt 1 \<and> stride c = PInt 1 \<and> padding c = PInt 0"
  shows "\<exists>rs. calculate_rest prev (map Conv cs) = Inr rs \<and> length rs = length cs
           \<and> (\<forall>r \<in> set rs. obj_derived r = (PInt N, PInt 1, Some (Finite (1 / 2)), PInt 1))"
  using assms
proof (induction cs arbitrary: prev)
  case Nil
  then show ?case by simp
next
  case (Cons c cs)
  from identity_calculate [of c prev N] Cons.prems
  obtain c' where c': "obj_calculate (Conv c) prev = Inr (Conv c')"
    and d: "obj_derived (Conv c') = (PInt N, PInt 1, Some (Finite (1 / 2)), PInt 1)"
    by auto
  from Cons.IH [OF d] Cons.prems(2)
  obtain rs where "calculate_rest (Conv c') (map Conv cs) = Inr rs" and "length rs = length cs"
    and "\<forall>r \<in> set rs. obj_derived r = (PInt N, PInt 1, Some (Finite (1 / 2)), PInt 1)"
    by auto
  then show ?case using c' d by simp
qed

text \<open>
  C6. \<^verbatim>\<open>Input(N)\<close> followed by any number of layers
  \<^verbatim>\<open>Conv(kernel=1, stride=1, padding=0)\<close> (any names) evaluates without an exception,
  and every layer of the result, the Input included, has output size \<open>N\<close>, receptive field
  size 1, receptive field center 0.5 and jump 1. With no Conv layer this is the state of
  the Input layer alone.
\<close>

theorem identity_convolutions:
  assumes "\<forall>c \<in> set cs. \<exists>nm. Conv_init (PInt 1) (Some (PInt 1)) (Some (PInt 0)) nm = Inr c"
  shows "\<exists>rs. evaluate_layers (Input (Input_init (PInt N) nm0) # map Conv cs) = Inr rs
           \<and> length rs = Suc (length cs)
           \<and> (\<forall>r \<in> set rs. obj_derived r = (PInt N, PInt 1, Some (Finite (1 / 2)), PInt 1))"
proof -
  have i: "obj_derived (Input (Input_init (PInt N) nm0)) =
             (PInt N, PInt 1, Some (Finite (1 / 2)), PInt 1)"
    by (simp add: derived_def init_defs)
  have "\<forall>c \<in> set cs. kernel c = PInt 1 \<and> stride c = PInt 1 \<and> padding c = PInt 0"
    using assms by (auto simp: init_defs)
  from identity_calculate_rest [OF i this]
  obtain rs where "calculate_rest (Input (Input_init (PInt N) nm0)) (map Conv cs) = Inr rs"
    and "length rs = length cs"
    and "\<forall>r \<in> set rs. obj_derived r = (PInt N, PInt 1, Some (Finite (1 / 2)), PInt 1)"
    by auto
  then show ?thesis using i by (simp add: evaluate_layers_def)
qed

theorem identity_convolutions_witness:
  "map_sum id (map obj_derived)
     (evaluate_layers
        [Input (Input_init (PInt 7) PNone),
         Conv (projr (Conv_init (PInt 1) (Some (PInt 1)) (Some (PInt 0)) None)),
         Conv (projr (Conv_init (PInt 1) (Some (PInt 1)) (Some (PInt 0)) (Some (PStr ''b''))))]) =
   Inr [(PInt 7, PInt 1, Some (Finite (1 / 2)), PInt 1),
        (PInt 7, PInt 1, Some (Finite (1 / 2)), PInt 1),
        (PInt 7, PInt 1, Some (Finite (1 / 2)), PInt 1)]"
proof -
  let ?cs = "[projr (Conv_init (PInt 1) (Some (PInt 1)) (Some (PInt 0)) None),
              projr (Conv_init (PInt 1) (Some (PInt 1)) (Some (PInt 0)) (Some (PStr ''b'')))]"
  have a: "Conv_init (PInt 1) (Some (PInt 1)) (Some (PInt 0)) nm =
             Inr (projr (Conv_init (PInt 1) (Some (PInt 1)) (Some (PInt 0)) nm))" for nm
    by (simp add: init_defs)
  have h: "\<forall>c \<in> set ?cs. \<exists>nm. Conv_init (PInt 1) (Some (PInt 1)) (Some (PInt 0)) nm = Inr c"
    using a [of None] a [of "Some (PStr ''b'')"] by auto
  from identity_convolutions [OF h, of 7 PNone]
  obtain rs where ev: "evaluate_layers (Input (Input_init (PInt 7) PNone) # map Conv ?cs) = Inr rs"
    and len: "length rs = 3"
    and all: "\<forall>r \<in> set rs. obj_derived r = (PInt 7, PInt 1, Some (Finite (1 / 2)), PInt 1)"
    by auto
  from len obtain x y z where "rs = [x, y, z]"
    by (auto simp: length_Suc_conv numeral_3_eq_3)
  then show ?thesis using ev all by simp
qed

section \<open>The life of a layer's derived attributes\<close>

text \<open>The four writes of one transform, in the order of the source.\<close>

lemma calculate_logged_eq:
  "calculate_logged self prev =
     and_then (calculate self prev)
       (\<lambda>c. Inr (c, [OutputSize, ReceptiveFieldSize, ReceptiveFieldCenter, Jump]))"
  by (simp add: calculate_logged_def calc_defs and_then_case Let_def set_output_size_def
      set_receptive_field_size_def set_receptive_field_center_def set_jump_def
      split: sum.splits)

lemma obj_calculate_logged_eq:
  "obj_calculate_logged l prev =
     and_then (obj_calculate l prev)
       (\<lambda>l'. Inr (l', [OutputSize, ReceptiveFieldSize, ReceptiveFieldCenter, Jump]))"
proof -
  have "calculate_on_logged c prev =
          and_then (calculate_on c prev)
            (\<lambda>c'. Inr (c', [OutputSize, ReceptiveFieldSize, ReceptiveFieldCenter, Jump]))"
    for c
    by (cases prev) (simp_all add: calculate_logged_eq)
  then show ?thesis
    by (cases l) (simp_all add: and_then_case split: sum.splits)
qed

lemma calculate_rest_logged_eq:
  "calculate_rest_logged i prev rest =
     and_then (calculate_rest prev rest)
       (\<lambda>rs. Inr (rs, concat (map (\<lambda>j. map (Pair j)
                 [OutputSize, ReceptiveFieldSize, ReceptiveFieldCenter, Jump])
                 [i..<i + length rest])))"
proof (induction rest arbitrary: i prev)
  case Nil
  then show ?case by simp
next
  case (Cons l rest)
  have "[i..<i + Suc (length rest)] = i # [Suc i..<i + Suc (length rest)]"
    by (rule upt_conv_Cons) simp
  then have "[i..<i + length (l # rest)] = i # [Suc i..<Suc i + length rest]"
    by simp
  then show ?case
    by (simp add: Cons.IH obj_calculate_logged_eq and_then_case split: sum.splits)
qed

lemma count_writes:
  "count_list (concat (map (\<lambda>j. map (Pair j)
       [OutputSize, ReceptiveFieldSize, ReceptiveFieldCenter, Jump]) [i..<k])) (j, a) =
     (if i \<le> j \<and> j < k then 1 else 0)"
proof (induction k)
  case 0
  then show ?case by simp
next
  case (Suc k)
  have one: "count_list (map (Pair k)
      [OutputSize, ReceptiveFieldSize, ReceptiveFieldCenter, Jump]) (j, a) =
        (if k = j then 1 else 0)"
    by (cases a) simp_all
  show ?case
  proof (cases "i \<le> k")
    case True
    then show ?thesis using Suc one by auto
  next
    case False
    then show ?thesis by simp
  qed
qed

text \<open>What one successful transform leaves in the object.\<close>

lemma calculate_sets:
  assumes "calculate c prev = Inr c'"
  shows "calculate_output_size c (output_size prev) = Inr (output_size c')
       \<and> calculate_receptive_field_size c (receptive_field_size prev) (jump prev) =
           Inr (receptive_field_size c')
       \<and> calculate_receptive_field_center c (receptive_field_center prev) (jump prev) =
           Inr (receptive_field_center c')
       \<and> calculate_output_jump c (jump prev) = Inr (jump c')
       \<and> c' = c\<lparr>output_size := output_size c',
                 receptive_field_size := receptive_field_size c',
                 receptive_field_center := receptive_field_center c',
                 jump := jump c'\<rparr>"
  using assms by (auto simp: calculate_def and_then_case split: sum.splits)

lemma obj_calculate_computed:
  assumes "obj_calculate l prev = Inr l'"
  shows "computed_from l prev l'"
proof -
  have *: "calculate_on c prev = Inr c' \<Longrightarrow>
      (case obj_derived prev of
         (n, r, x, j) \<Rightarrow>
           calculate_output_size c n = Inr (output_size c')
           \<and> calculate_receptive_field_size c r j = Inr (receptive_field_size c')
           \<and> calculate_receptive_field_center c x j = Inr (receptive_field_center c')
           \<and> calculate_output_jump c j = Inr (jump c')
           \<and> c' = c\<lparr>output_size := output_size c',
                     receptive_field_size := receptive_field_size c',
                     receptive_field_center := receptive_field_center c',
                     jump := jump c'\<rparr>)" for c c'
    by (cases prev) (simp_all add: derived_def calculate_sets)
  show ?thesis
  proof (cases l)
    case (Input x)
    then show ?thesis using assms by simp
  next
    case (Conv c)
    then obtain c' where "calculate_on c prev = Inr c'" and "l' = Conv c'"
      using assms by (auto simp: and_then_case split: sum.splits)
    then show ?thesis using Conv * [of c c'] by (simp split: prod.splits)
  next
    case (Pool c)
    then obtain c' where "calculate_on c prev = Inr c'" and "l' = Pool c'"
      using assms by (auto simp: and_then_case split: sum.splits)
    then show ?thesis using Pool * [of c c'] by (simp split: prod.splits)
  qed
qed

lemma calculate_rest_steps:
  assumes "calculate_rest prev rest = Inr rs"
  shows "length rs = length rest \<and>
         (\<forall>i < length rest. computed_from (rest ! i) ((prev # rs) ! i) (rs ! i))"
  using assms
proof (induction rest arbitrary: prev rs)
  case Nil
  then show ?case by simp
next
  case (Cons l rest)
  from Cons.prems obtain l' rs' where l': "obj_calculate l prev = Inr l'"
    and rs': "calculate_rest l' rest = Inr rs'" and rs: "rs = l' # rs'"
    by (auto simp: and_then_case split: sum.splits)
  from Cons.IH [OF rs']
  have len: "length rs' = length rest"
    and tl: "\<forall>i < length rest. computed_from (rest ! i) ((l' # rs') ! i) (rs' ! i)"
    by simp_all
  have "computed_from ((l # rest) ! i) ((prev # rs) ! i) (rs ! i)"
    if "i < length (l # rest)" for i
  proof (cases i)
    case 0
    then show ?thesis using obj_calculate_computed [OF l'] rs by simp
  next
    case (Suc i')
    then show ?thesis using tl that rs by simp
  qed
  then show ?case using len rs by simp
qed

text \<open>
  A new \<^verbatim>\<open>Conv(kernel=3)\<close> has the jump 1, not \<^verbatim>\<open>None\<close>: \<^verbatim>\<open>Layer.__init__\<close> assigns
  \<^verbatim>\<open>self.jump = 1\<close>.
\<close>

theorem fresh_jump_counterexample:
  "map_sum id jump (Conv_init (PInt 3) None None None) = Inr (PInt 1) \<and> PInt 1 \<noteq> PNone"
  by (simp add: init_defs)

text \<open>
  C7, amended. A newly constructed Conv or Pool layer has \<^verbatim>\<open>None\<close> as output size,
  receptive field size and receptive field center, and the integer 1 as jump. The chain
  evaluator succeeds with the log of writes exactly when it succeeds without, with the
  same layers, and its log is then, for the positions 1, 2, ... of the layers after the
  first in this order, the four writes of output size, receptive field size, receptive
  field center and jump of that layer: every derived attribute of every layer after the
  first is written exactly once (and none of the first layer), and after the writes of a
  layer no later write is to that layer. The evaluated chain has the length of the given
  one, its first layer is unchanged, and every later layer is the given one with its four
  derived attributes set to what its four \<^verbatim>\<open>calculate_...\<close> methods return on the final
  attributes of its predecessor.
\<close>

theorem fresh_layer_and_single_transform:
  "(Conv_init k s p nm = Inr c \<longrightarrow> derived c = (PNone, PNone, None, PInt 1))
   \<and> (Pool_init k' nm' = Inr c' \<longrightarrow> derived c' = (PNone, PNone, None, PInt 1))
   \<and> evaluate_layers_logged layers =
       and_then (evaluate_layers layers)
         (\<lambda>rs. Inr (rs, concat (map (\<lambda>i. map (Pair i)
                   [OutputSize, ReceptiveFieldSize, ReceptiveFieldCenter, Jump])
                   [1..<length layers])))
   \<and> (evaluate_layers_logged layers = Inr (rs, ws) \<longrightarrow>
        length rs = length layers \<and> rs ! 0 = layers ! 0
        \<and> (\<forall>i a. count_list ws (i, a) = (if 0 < i \<and> i < length layers then 1 else 0))
        \<and> (\<forall>i. 0 < i \<and> i < length layers \<longrightarrow>
              computed_from (layers ! i) (rs ! (i - 1)) (rs ! i)))"
proof (intro conjI impI)
  assume "Conv_init k s p nm = Inr c"
  then show "derived c = (PNone, PNone, None, PInt 1)"
    by (auto simp: init_defs derived_def Let_def and_then_case split: if_splits sum.splits)
next
  assume "Pool_init k' nm' = Inr c'"
  then show "derived c' = (PNone, PNone, None, PInt 1)"
    by (auto simp: init_defs derived_def Let_def and_then_case split: if_splits sum.splits)
next
  show eq: "evaluate_layers_logged layers =
       and_then (evaluate_layers layers)
         (\<lambda>rs. Inr (rs, concat (map (\<lambda>i. map (Pair i)
                   [OutputSize, ReceptiveFieldSize, ReceptiveFieldCenter, Jump])
                   [1..<length layers])))"
  proof (cases layers)
    case Nil
    then show ?thesis by (simp add: evaluate_layers_logged_def evaluate_layers_def)
  next
    case (Cons first rest)
    then show ?thesis
      by (simp add: evaluate_layers_logged_def evaluate_layers_def calculate_rest_logged_eq
          and_then_case split: sum.splits)
  qed
  assume "evaluate_layers_logged layers = Inr (rs, ws)"
  with eq have ev: "evaluate_layers layers = Inr rs"
    and ws: "ws = concat (map (\<lambda>i. map (Pair i)
                [OutputSize, ReceptiveFieldSize, ReceptiveFieldCenter, Jump])
                [1..<length layers])"
    by (auto simp: and_then_case split: sum.splits)
  from ev obtain first rest rs' where layers: "layers = first # rest"
    and rs': "calculate_rest first rest = Inr rs'" and rs: "rs = first # rs'"
    by (auto simp: evaluate_layers_def and_then_case split: list.splits sum.splits)
  from calculate_rest_steps [OF rs']
  have len: "length rs' = length rest"
    and st: "\<forall>i < length rest. computed_from (rest ! i) ((first # rs') ! i) (rs' ! i)"
    by simp_all
  show "length rs = length layers" using len layers rs by simp
  show "rs ! 0 = layers ! 0" using layers rs by simp
  show "\<forall>i a. count_list ws (i, a) = (if 0 < i \<and> i < length layers then 1 else 0)"
    unfolding ws count_writes by auto
  show "\<forall>i. 0 < i \<and> i < length layers \<longrightarrow>
          computed_from (layers ! i) (rs ! (i - 1)) (rs ! i)"
  proof (intro allI impI)
    fix i assume "0 < i \<and> i < length layers"
    then obtain i' where "i = Suc i'" and "i' < length rest"
      using layers by (cases i) auto
    then show "computed_from (layers ! i) (rs ! (i - 1)) (rs ! i)"
      using st layers rs by simp
  qed
qed

text \<open>
  The chain of the specification's examples, \<^verbatim>\<open>Input(10)\<close>, \<^verbatim>\<open>Conv(kernel=3)\<close>,
  \<^verbatim>\<open>Pool(2)\<close>: the derived attributes of the new layers, those of the evaluated chain,
  and the eight writes.
\<close>

theorem fresh_layer_and_single_transform_witness:
  "map_sum id derived (Conv_init (PInt 3) None None None) = Inr (PNone, PNone, None, PInt 1)
   \<and> map_sum id derived (Pool_init (PInt 2) None) = Inr (PNone, PNone, None, PInt 1)
   \<and> map_sum id (map_prod (map obj_derived) id)
        (evaluate_layers_logged
           [Input (Input_init (PInt 10) PNone),
            Conv (projr (Conv_init (PInt 3) None None None)),
            Pool (projr (Pool_init (PInt 2) None))]) =
      Inr ([(PInt 10, PInt 1, Some (Finite (1 / 2)), PInt 1),
            (PInt 10, PInt 3, Some (Finite (1 / 2)), PInt 1),
            (PInt 5, PInt 4, Some (Finite (- (1 / 2))), PInt 2)],
           [(1, OutputSize), (1, ReceptiveFieldSize), (1, ReceptiveFieldCenter), (1, Jump),
            (2, OutputSize), (2, ReceptiveFieldSize), (2, ReceptiveFieldCenter), (2, Jump)])"
proof -
  let ?c = "projr (Conv_init (PInt 3) None None None)"
  let ?p = "projr (Pool_init (PInt 2) None)"
  let ?layers = "[Input (Input_init (PInt 10) PNone), Conv ?c, Pool ?p]"
  let ?rs = "[Input (Input_init (PInt 10) PNone),
              Conv (?c\<lparr>output_size := PInt 10, receptive_field_size := PInt 3,
                       receptive_field_center := Some (Finite (1 / 2)), jump := PInt 1\<rparr>),
              Pool (?p\<lparr>output_size := PInt 5, receptive_field_size := PInt 4,
                       receptive_field_center := Some (Finite (- (1 / 2))),
                       jump := PInt 2\<rparr>)]"
  let ?ws = "[(1, OutputSize), (1, ReceptiveFieldSize), (1, ReceptiveFieldCenter), (1, Jump),
              (2, OutputSize), (2, ReceptiveFieldSize), (2, ReceptiveFieldCenter), (2, Jump)]"
  have c: "Conv_init (PInt 3) None None None = Inr ?c"
    by (simp add: init_defs)
  have p: "Pool_init (PInt 2) None = Inr ?p"
    by (simp add: init_defs)
  have ev: "evaluate_layers_logged ?layers = Inr (?rs, ?ws)"
    by (simp add: evaluate_layers_logged_def calculate_logged_def set_output_size_def
        set_receptive_field_size_def set_receptive_field_center_def set_jump_def
        calculate_output_size_def calculate_receptive_field_size_def
        calculate_receptive_field_center_def calculate_output_jump_def init_defs float_evals)
  note t = fresh_layer_and_single_transform
    [of "PInt 3" None None None ?c "PInt 2" None ?p ?layers ?rs ?ws]
  from t c have dc: "derived ?c = (PNone, PNone, None, PInt 1)"
    by blast
  from t p have dp: "derived ?p = (PNone, PNone, None, PInt 1)"
    by blast
  from t ev have "length ?rs = length ?layers"
    and "\<forall>i a. count_list ?ws (i, a) = (if 0 < i \<and> i < length ?layers then 1 else 0)"
    and "\<forall>i. 0 < i \<and> i < length ?layers \<longrightarrow>
           computed_from (?layers ! i) (?rs ! (i - 1)) (?rs ! i)"
    by blast+
  have "map_sum id derived (Conv_init (PInt 3) None None None) =
      Inr (PNone, PNone, None, PInt 1)"
    by (subst c) (simp add: dc)
  moreover have "map_sum id derived (Pool_init (PInt 2) None) =
      Inr (PNone, PNone, None, PInt 1)"
    by (subst p) (simp add: dp)
  moreover have "map_sum id (map_prod (map obj_derived) id)
      (evaluate_layers_logged ?layers) =
        Inr ([(PInt 10, PInt 1, Some (Finite (1 / 2)), PInt 1),
              (PInt 10, PInt 3, Some (Finite (1 / 2)), PInt 1),
              (PInt 5, PInt 4, Some (Finite (- (1 / 2))), PInt 2)], ?ws)"
    unfolding ev by (simp add: derived_def init_defs)
  ultimately show ?thesis by blast
qed

section \<open>Configuration records\<close>

lemma resolved_kernel_size:
  "resolve_padding (resolve_stride (resolve_kernel_size cfg)) ''kernel_size'' =
     first_present cfg [''kernel_size'', ''kernel'', ''k'']"
  by (auto simp: resolve_padding_def resolve_stride_def resolve_kernel_size_def
      split: option.splits)

lemma resolved_stride:
  "resolve_padding (resolve_stride (resolve_kernel_size cfg)) ''stride'' =
     first_present cfg [''stride'', ''s'']"
  by (auto simp: resolve_padding_def resolve_stride_def resolve_kernel_size_def
      split: option.splits)

lemma resolved_padding:
  "resolve_padding (resolve_stride (resolve_kernel_size cfg)) ''padding'' =
     first_present cfg [''padding'', ''p'']"
  by (auto simp: resolve_padding_def resolve_stride_def resolve_kernel_size_def
      split: option.splits)

lemma resolved_other:
  "key \<notin> {''kernel_size'', ''stride'', ''padding''} \<Longrightarrow>
   resolve_padding (resolve_stride (resolve_kernel_size cfg)) key = cfg key"
  by (auto simp: resolve_padding_def resolve_stride_def resolve_kernel_size_def
      split: option.splits)

text \<open>
  C8. A record whose \<^verbatim>\<open>type\<close> value, lowered, is neither \<^verbatim>\<open>'conv'\<close> nor \<^verbatim>\<open>'pool'\<close>
  makes \<^verbatim>\<open>create_layer_from_config\<close> raise: \<^verbatim>\<open>UnboundLocalError\<close> for a string (no
  branch binds \<^verbatim>\<open>layer\<close>), \<^verbatim>\<open>AttributeError\<close> for a value that is no string. No layer
  is returned.
\<close>

theorem unknown_type_raises:
  assumes "config ''type'' = Some v"
    and "\<forall>t. v = PStr t \<longrightarrow> str_lower t \<noteq> ''conv'' \<and> str_lower t \<noteq> ''pool''"
  shows "snd (create_layer_from_config config) =
           Inl (case v of PStr t \<Rightarrow> UnboundLocalError | _ \<Rightarrow> AttributeError)"
  using assms
  by (cases v) (simp_all add: create_layer_from_config_def dict_get_def Let_def)

theorem unknown_type_raises_witness:
  "snd (create_layer_from_config [''type'' \<mapsto> PStr ''Dense'', ''k'' \<mapsto> PInt 3]) =
     Inl UnboundLocalError"
  using unknown_type_raises
    [of "[''type'' \<mapsto> PStr ''Dense'', ''k'' \<mapsto> PInt 3]" "PStr ''Dense''"]
  by (simp add: str_lower_def lower_char_def)

text \<open>
  A pool record with \<^verbatim>\<open>stride\<close> 3 and \<^verbatim>\<open>padding\<close> 0: the layer has stride 2, its
  kernel, and padding 1, from \<^verbatim>\<open>'same'\<close>. \<^verbatim>\<open>Pool.__init__\<close> takes a size and a name
  only.
\<close>

theorem pool_ignores_stride_counterexample:
  "snd (create_layer_from_config
          [''type'' \<mapsto> PStr ''pool'', ''kernel_size'' \<mapsto> PInt 2, ''stride'' \<mapsto> PInt 3,
           ''padding'' \<mapsto> PInt 0]) =
   Inr (Pool \<lparr>name = PNone, output_size = PNone, receptive_field_size = PNone,
              receptive_field_center = None, jump = PInt 1, padding_policy = PStr ''same'',
              kernel = PInt 2, padding = PInt 1, stride = PInt 2\<rparr>)"
  by (simp add: config_defs init_defs)

text \<open>
  C9, amended. For every record with a string type (or none): the kernel handed to the
  constructor is the value of \<^verbatim>\<open>kernel_size\<close> if present, otherwise of \<^verbatim>\<open>kernel\<close>,
  otherwise of \<^verbatim>\<open>k\<close> (\<^verbatim>\<open>KeyError\<close> if none is present). For a conv record the stride
  is the value of \<^verbatim>\<open>stride\<close> if present, otherwise of \<^verbatim>\<open>s\<close>, otherwise 1, and the
  padding the value of \<^verbatim>\<open>padding\<close> if present, otherwise of \<^verbatim>\<open>p\<close>, otherwise
  \<^verbatim>\<open>'same'\<close>. For a pool record only the kernel and the name are handed on: stride and
  padding keys have no effect.
\<close>

theorem construction_arguments:
  assumes "dict_get config ''type'' (PStr ''conv'') = PStr t"
  shows "snd (create_layer_from_config config) =
    (if str_lower t = ''conv'' then
       (case first_present config [''kernel_size'', ''kernel'', ''k''] of
          None \<Rightarrow> Inl KeyError
        | Some k \<Rightarrow>
            and_then
              (Conv_init k
                 (Some (case first_present config [''stride'', ''s''] of
                          None \<Rightarrow> PInt 1 | Some v \<Rightarrow> v))
                 (Some (case first_present config [''padding'', ''p''] of
                          None \<Rightarrow> PStr ''same'' | Some v \<Rightarrow> v))
                 (Some (dict_get config ''name'' PNone)))
              (\<lambda>c. Inr (Conv c)))
     else if str_lower t = ''pool'' then
       (case first_present config [''kernel_size'', ''kernel'', ''k''] of
          None \<Rightarrow> Inl KeyError
        | Some k \<Rightarrow>
            and_then (Pool_init k (Some (dict_get config ''name'' PNone)))
              (\<lambda>c. Inr (Pool c)))
     else Inl UnboundLocalError)"
proof -
  let ?cfg = "resolve_padding (resolve_stride (resolve_kernel_size config))"
  have nm: "dict_get ?cfg ''name'' PNone = dict_get config ''name'' PNone"
    by (simp add: dict_get_def resolved_other)
  have st: "dict_get ?cfg ''stride'' (PInt 1) =
      (case first_present config [''stride'', ''s''] of None \<Rightarrow> PInt 1 | Some v \<Rightarrow> v)"
    unfolding dict_get_def resolved_stride ..
  have pd: "dict_get ?cfg ''padding'' (PStr ''same'') =
      (case first_present config [''padding'', ''p''] of
         None \<Rightarrow> PStr ''same'' | Some v \<Rightarrow> v)"
    unfolding dict_get_def resolved_padding ..
  show ?thesis
    unfolding create_layer_from_config_def assms Let_def pyval.case snd_conv
      nm st pd resolved_kernel_size ..
qed

text \<open>The example of the specification: \<^verbatim>\<open>kernel_size=5\<close> and \<^verbatim>\<open>k=3\<close> give kernel 5.\<close>

theorem construction_arguments_witness:
  "snd (create_layer_from_config
          [''kernel_size'' \<mapsto> PInt 5, ''k'' \<mapsto> PInt 3, ''s'' \<mapsto> PInt 2]) =
   Inr (Conv \<lparr>name = PNone, output_size = PNone, receptive_field_size = PNone,
              receptive_field_center = None, jump = PInt 1, padding_policy = PStr ''same'',
              kernel = PInt 5, padding = PInt 2, stride = PInt 2\<rparr>)"
  using construction_arguments
    [of "[''kernel_size'' \<mapsto> PInt 5, ''k'' \<mapsto> PInt 3, ''s'' \<mapsto> PInt 2]" "''conv''"]
  by (simp add: dict_get_def str_lower_def lower_char_def init_defs)

text \<open>
  C10. \<^verbatim>\<open>create_layer_from_config\<close> writes the resolved abbreviations into the record it
  is given. For a record with a string type (or none), the caller's record afterwards
  holds under \<^verbatim>\<open>kernel_size\<close> the value of \<^verbatim>\<open>kernel_size\<close>, else \<^verbatim>\<open>kernel\<close>, else
  \<^verbatim>\<open>k\<close> of the record before; under \<^verbatim>\<open>stride\<close> that of \<^verbatim>\<open>stride\<close>, else \<^verbatim>\<open>s\<close>;
  under \<^verbatim>\<open>padding\<close> that of \<^verbatim>\<open>padding\<close>, else \<^verbatim>\<open>p\<close>; every other key is as
  before. So a record without \<^verbatim>\<open>kernel_size\<close> but with \<^verbatim>\<open>kernel\<close> or \<^verbatim>\<open>k\<close> has
  gained the key \<^verbatim>\<open>kernel_size\<close>, whether or not the construction then succeeds.
\<close>

theorem shortcuts_written_to_record:
  assumes "dict_get config ''type'' (PStr ''conv'') = PStr t"
  shows "fst (create_layer_from_config config) ''kernel_size'' =
           first_present config [''kernel_size'', ''kernel'', ''k'']
       \<and> fst (create_layer_from_config config) ''stride'' =
           first_present config [''stride'', ''s'']
       \<and> fst (create_layer_from_config config) ''padding'' =
           first_present config [''padding'', ''p'']
       \<and> (\<forall>key. key \<notin> {''kernel_size'', ''stride'', ''padding''} \<longrightarrow>
             fst (create_layer_from_config config) key = config key)"
proof -
  have "fst (create_layer_from_config config) =
          resolve_padding (resolve_stride (resolve_kernel_size config))"
    by (simp add: create_layer_from_config_def assms Let_def)
  then show ?thesis
    by (simp only: resolved_kernel_size resolved_stride resolved_padding)
      (simp add: resolved_other)
qed

theorem shortcuts_written_to_record_witness:
  "fst (create_layer_from_config [''k'' \<mapsto> PInt 3, ''s'' \<mapsto> PInt 2, ''p'' \<mapsto> PInt 1])
       ''kernel_size'' = Some (PInt 3)
   \<and> fst (create_layer_from_config [''k'' \<mapsto> PInt 3, ''s'' \<mapsto> PInt 2, ''p'' \<mapsto> PInt 1])
       ''stride'' = Some (PInt 2)
   \<and> fst (create_layer_from_config [''k'' \<mapsto> PInt 3, ''s'' \<mapsto> PInt 2, ''p'' \<mapsto> PInt 1])
       ''padding'' = Some (PInt 1)
   \<and> fst (create_layer_from_config [''k'' \<mapsto> PInt 3, ''s'' \<mapsto> PInt 2, ''p'' \<mapsto> PInt 1])
       ''k'' = Some (PInt 3)"
  using shortcuts_written_to_record
    [of "[''k'' \<mapsto> PInt 3, ''s'' \<mapsto> PInt 2, ''p'' \<mapsto> PInt 1]" "''conv''"]
  by (simp add: dict_get_def)

end
